theory Spec2Isabelle
  imports Main "HOL-Library.Monad_Syntax"
begin

section \<open>The selector builder of \<^verbatim>\<open>src/06-objects-tasks.js\<close>\<close>

text \<open>
  The builder is a JavaScript object with two data properties, \<^verbatim>\<open>string\<close> and
  \<^verbatim>\<open>selectorUsed\<close> (a reference to an array of six booleans), and its methods. The
  methods read and write through \<^verbatim>\<open>this\<close>, so objects and arrays live in an explicit
  store and are named by references: an object that is reachable from two places is one
  entry of the store.
\<close>

subsection \<open>The store\<close>

type_synonym ref = nat

record selector =
  string :: string
  selectorUsed :: ref

record heap =
  objects :: "selector list"
  arrays :: "bool list list"

text \<open>
  Reading an array element: an index outside the array reads \<^verbatim>\<open>undefined\<close>, which
  is falsy, and the source reads elements in conditions only. Writing an element outside
  the array extends it; the holes in between read as \<^verbatim>\<open>undefined\<close>.
\<close>

definition js_index :: "bool list \<Rightarrow> nat \<Rightarrow> bool" where
  "js_index xs i = (i < length xs \<and> xs ! i)"

definition js_assign :: "bool list \<Rightarrow> nat \<Rightarrow> bool \<Rightarrow> bool list" where
  "js_assign xs i b =
     (if i < length xs then xs[i := b] else xs @ replicate (i - length xs) False @ [b])"

text \<open>\<^verbatim>\<open>o.string\<close> and the array behind \<^verbatim>\<open>o.selectorUsed\<close>, for a reference \<open>r\<close>.\<close>

definition string_of :: "heap \<Rightarrow> ref \<Rightarrow> string" where
  "string_of h r = string (objects h ! r)"

definition used_of :: "heap \<Rightarrow> ref \<Rightarrow> bool list" where
  "used_of h r = arrays h ! selectorUsed (objects h ! r)"

text \<open>\<^verbatim>\<open>o.string = s\<close> and \<^verbatim>\<open>o.selectorUsed[i] = b\<close>.\<close>

definition put_string :: "heap \<Rightarrow> ref \<Rightarrow> string \<Rightarrow> heap" where
  "put_string h r s = h\<lparr>objects := (objects h)[r := (objects h ! r)\<lparr>string := s\<rparr>]\<rparr>"

definition put_used :: "heap \<Rightarrow> ref \<Rightarrow> nat \<Rightarrow> bool \<Rightarrow> heap" where
  "put_used h r i b =
     (let a = selectorUsed (objects h ! r)
      in h\<lparr>arrays := (arrays h)[a := js_assign (arrays h ! a) i b]\<rparr>)"

text \<open>
  The store when the module has been loaded: the object literal
  \<^verbatim>\<open>cssSelectorBuilder\<close> with \<^verbatim>\<open>string: ''\<close> and its array of six \<^verbatim>\<open>false\<close>.
\<close>

definition cssSelectorBuilder :: ref where
  "cssSelectorBuilder = 0"

definition initial_heap :: heap where
  "initial_heap = \<lparr>objects = [\<lparr>string = [], selectorUsed = 0\<rparr>],
                   arrays = [[False, False, False, False, False, False]]\<rparr>"

subsection \<open>Errors\<close>

datatype error = MoreThenOneTime | WrongOrder

fun message :: "error \<Rightarrow> string" where
  "message MoreThenOneTime =
     ''Element, id and pseudo-element should not occur more then one time inside the selector''"
| "message WrongOrder =
     ''Selector parts should be arranged in the following order: element, id, class, attribute, pseudo-class, pseudo-element''"

text \<open>A method call returns a reference or throws, and leaves a store behind either way.\<close>

type_synonym 'a outcome = "(error + 'a) \<times> heap"

subsection \<open>The methods\<close>

text \<open>
  \<^verbatim>\<open>copyObject(obj)\<close>: the spread \<^verbatim>\<open>{ ...obj }\<close> makes a new object whose properties
  hold the same values, so its \<^verbatim>\<open>selectorUsed\<close> is at first the array of \<open>obj\<close>;
  \<^verbatim>\<open>slice()\<close> then makes a new array with the same elements and the new object is
  pointed at it.
\<close>

definition copyObject :: "heap \<Rightarrow> ref \<Rightarrow> ref \<times> heap" where
  "copyObject h obj =
     (let object = length (objects h);
          h1 = h\<lparr>objects := objects h @ [objects h ! obj]\<rparr>;
          sliced = length (arrays h1);
          h2 = h1\<lparr>arrays := arrays h1 @ [used_of h1 obj]\<rparr>;
          h3 = h2\<lparr>objects := (objects h2)[object := (objects h2 ! object)\<lparr>selectorUsed := sliced\<rparr>]\<rparr>
      in (object, h3))"

text \<open>\<^verbatim>\<open>getString(value)\<close>: the empty string is falsy, so the conditional keeps the text.\<close>

definition getString :: "heap \<Rightarrow> ref \<Rightarrow> string \<Rightarrow> heap" where
  "getString h this v =
     (let h1 = put_string h this (if string_of h this \<noteq> [] then string_of h this else [])
      in put_string h1 this (string_of h1 this @ v))"

definition shouldNotOccurMoreThenOneTime :: "heap \<Rightarrow> 'a outcome" where
  "shouldNotOccurMoreThenOneTime h = (Inl MoreThenOneTime, h)"

text \<open>The loop of \<^verbatim>\<open>checkOrder\<close>, from \<open>i\<close> up to the length of the array.\<close>

function checkOrder_loop :: "bool list \<Rightarrow> nat \<Rightarrow> error option" where
  "checkOrder_loop used i =
     (if i < length used
      then (if js_index used i then Some WrongOrder else checkOrder_loop used (i + 1))
      else None)"
  by pat_completeness auto
termination
  by (relation "measure (\<lambda>(used, i). length used - i)") auto

declare checkOrder_loop.simps [simp del]

definition checkOrder :: "heap \<Rightarrow> ref \<Rightarrow> nat \<Rightarrow> error option" where
  "checkOrder h this order = checkOrder_loop (used_of h this) (order + 1)"

definition element :: "heap \<Rightarrow> ref \<Rightarrow> string \<Rightarrow> ref outcome" where
  "element h this v =
     (case checkOrder h this 0 of
        Some e \<Rightarrow> (Inl e, h)
      | None \<Rightarrow>
          (let (element, h1) = copyObject h this
           in if js_index (used_of h1 element) 0 then shouldNotOccurMoreThenOneTime h1
              else (Inr element, getString (put_used h1 element 0 True) element v)))"

definition id_sel :: "heap \<Rightarrow> ref \<Rightarrow> string \<Rightarrow> ref outcome" where
  "id_sel h this v =
     (case checkOrder h this 1 of
        Some e \<Rightarrow> (Inl e, h)
      | None \<Rightarrow>
          (let (element, h1) = copyObject h this
           in if js_index (used_of h1 element) 1 then shouldNotOccurMoreThenOneTime h1
              else (Inr element, getString (put_used h1 element 1 True) element (''#'' @ v))))"

definition class_sel :: "heap \<Rightarrow> ref \<Rightarrow> string \<Rightarrow> ref outcome" where
  "class_sel h this v =
     (case checkOrder h this 2 of
        Some e \<Rightarrow> (Inl e, h)
      | None \<Rightarrow>
          (let (element, h1) = copyObject h this
           in (Inr element, getString (put_used h1 element 2 True) element (''.'' @ v))))"

definition attr :: "heap \<Rightarrow> ref \<Rightarrow> string \<Rightarrow> ref outcome" where
  "attr h this v =
     (case checkOrder h this 3 of
        Some e \<Rightarrow> (Inl e, h)
      | None \<Rightarrow>
          (let (element, h1) = copyObject h this
           in (Inr element, getString (put_used h1 element 3 True) element (''['' @ v @ '']''))))"

definition pseudoClass :: "heap \<Rightarrow> ref \<Rightarrow> string \<Rightarrow> ref outcome" where
  "pseudoClass h this v =
     (case checkOrder h this 4 of
        Some e \<Rightarrow> (Inl e, h)
      | None \<Rightarrow>
          (let (element, h1) = copyObject h this
           in (Inr element, getString (put_used h1 element 4 True) element ('':'' @ v))))"

definition pseudoElement :: "heap \<Rightarrow> ref \<Rightarrow> string \<Rightarrow> ref outcome" where
  "pseudoElement h this v =
     (case checkOrder h this 5 of
        Some e \<Rightarrow> (Inl e, h)
      | None \<Rightarrow>
          (let (element, h1) = copyObject h this
           in if js_index (used_of h1 element) 5 then shouldNotOccurMoreThenOneTime h1
              else (Inr element, getString (put_used h1 element 5 True) element (''::'' @ v))))"

text \<open>\<^verbatim>\<open>stringify()\<close> returns the text and stores the empty string in its place.\<close>

definition stringify :: "heap \<Rightarrow> ref \<Rightarrow> string \<times> heap" where
  "stringify h this = (let v = string_of h this in (v, put_string h this []))"

text \<open>
  \<^verbatim>\<open>combine(selector1, combinator, selector2)\<close> calls \<^verbatim>\<open>stringify\<close> on both
  arguments, stores the joined text in \<^verbatim>\<open>this\<close> and returns \<^verbatim>\<open>this\<close>.
\<close>

definition combine :: "heap \<Rightarrow> ref \<Rightarrow> ref \<Rightarrow> string \<Rightarrow> ref \<Rightarrow> ref \<times> heap" where
  "combine h this selector1 combinator selector2 =
     (let (str1, h1) = stringify h selector1;
          (str2, h2) = stringify h1 selector2
      in (this, put_string h2 this (str1 @ '' '' @ combinator @ '' '' @ str2)))"

subsection \<open>Call chains\<close>

text \<open>
  A fluent chain \<^verbatim>\<open>b.id('main').class('container')\<close> is a list of calls, each made
  on the value the one before returned; an exception ends the chain.
\<close>

datatype call =
  Element string | Id_sel string | Class string | Attr string | PseudoClass string | PseudoElement string

fun invoke :: "heap \<Rightarrow> ref \<Rightarrow> call \<Rightarrow> ref outcome" where
  "invoke h this (Element v) = element h this v"
| "invoke h this (Id_sel v) = id_sel h this v"
| "invoke h this (Class v) = class_sel h this v"
| "invoke h this (Attr v) = attr h this v"
| "invoke h this (PseudoClass v) = pseudoClass h this v"
| "invoke h this (PseudoElement v) = pseudoElement h this v"

fun chain :: "heap \<Rightarrow> ref \<Rightarrow> call list \<Rightarrow> ref outcome" where
  "chain h this [] = (Inr this, h)"
| "chain h this (c # cs) =
     (case invoke h this c of
        (Inl e, h') \<Rightarrow> (Inl e, h')
      | (Inr r, h') \<Rightarrow> chain h' r cs)"

subsection \<open>Vocabulary for the properties\<close>

text \<open>
  The six categories in the order of \<^verbatim>\<open>selectorUsed\<close>, which of them the source
  guards with \<^verbatim>\<open>shouldNotOccurMoreThenOneTime\<close>, and the text each call appends.
\<close>

fun slot :: "call \<Rightarrow> nat" where
  "slot (Element v) = 0"
| "slot (Id_sel v) = 1"
| "slot (Class v) = 2"
| "slot (Attr v) = 3"
| "slot (PseudoClass v) = 4"
| "slot (PseudoElement v) = 5"

fun unique :: "call \<Rightarrow> bool" where
  "unique (Element v) = True"
| "unique (Id_sel v) = True"
| "unique (PseudoElement v) = True"
| "unique c = False"

fun decorated :: "call \<Rightarrow> string" where
  "decorated (Element v) = v"
| "decorated (Id_sel v) = ''#'' @ v"
| "decorated (Class v) = ''.'' @ v"
| "decorated (Attr v) = ''['' @ v @ '']''"
| "decorated (PseudoClass v) = '':'' @ v"
| "decorated (PseudoElement v) = ''::'' @ v"

text \<open>
  The shape the six methods share, with the slot, the guard and the appended text as
  parameters. It is compared with each method in \<open>invoke_part\<close> below.
\<close>

definition part :: "nat \<Rightarrow> bool \<Rightarrow> string \<Rightarrow> heap \<Rightarrow> ref \<Rightarrow> ref outcome" where
  "part order guarded text h this =
     (case checkOrder h this order of
        Some e \<Rightarrow> (Inl e, h)
      | None \<Rightarrow>
          (let (element, h1) = copyObject h this
           in if guarded \<and> js_index (used_of h1 element) order then (Inl MoreThenOneTime, h1)
              else (Inr element, getString (put_used h1 element order True) element text)))"

text \<open>A reference is live when it names an object of the store whose array is in the store.\<close>

definition live :: "heap \<Rightarrow> ref \<Rightarrow> bool" where
  "live h r \<longleftrightarrow> r < length (objects h) \<and> selectorUsed (objects h ! r) < length (arrays h)"

text \<open>Some slot after \<open>order\<close> is flagged.\<close>

definition later_used :: "bool list \<Rightarrow> nat \<Rightarrow> bool" where
  "later_used used order = (\<exists>i. order < i \<and> i < length used \<and> used ! i)"

text \<open>The store \<open>h\<close> with one more object, holding text \<open>s\<close>, and one more array \<open>used\<close>.\<close>

definition copied :: "heap \<Rightarrow> string \<Rightarrow> bool list \<Rightarrow> heap" where
  "copied h s used =
     h\<lparr>objects := objects h @ [\<lparr>string = s, selectorUsed = length (arrays h)\<rparr>],
       arrays := arrays h @ [used]\<rparr>"

text \<open>
  Rendering as the specification words it: for each slot from 0 to 5, the decorated texts
  appended to that slot, in the order they were appended; a slot nothing was appended to
  gives the empty text.
\<close>

definition slot_text :: "nat \<Rightarrow> call list \<Rightarrow> string" where
  "slot_text i cs = concat (map decorated (filter (\<lambda>c. slot c = i) cs))"

definition spec_render :: "call list \<Rightarrow> string" where
  "spec_render cs = concat (map (\<lambda>i. slot_text i cs) [0..<6])"

text \<open>Element, id and pseudo-element occur at most once each in a list of calls.\<close>

definition once :: "call list \<Rightarrow> bool" where
  "once cs \<longleftrightarrow> distinct (map slot (filter unique cs))"

text \<open>What a caller can see of the outcome of a call: the error, or the text and the flags.\<close>

definition observe :: "ref outcome \<Rightarrow> error + string \<times> bool list" where
  "observe out =
     (case out of (Inl e, h) \<Rightarrow> Inl e | (Inr r, h) \<Rightarrow> Inr (string_of h r, used_of h r))"

subsection \<open>Example stores\<close>

text \<open>
  The store after the module's builder object has received a chain of calls, and the
  stores of the examples used below. Each chain starts at \<^verbatim>\<open>cssSelectorBuilder\<close>; the
  objects it creates take the next free references, so the value a chain of \<open>n\<close> calls
  returns is \<open>n\<close> references after the last object of the store it started in.
\<close>

definition after :: "heap \<Rightarrow> call list \<Rightarrow> heap" where
  "after h cs = snd (chain h cssSelectorBuilder cs)"

definition main_sel :: heap where
  "main_sel = after initial_heap [Id_sel ''main'']"

definition id1_sel :: heap where
  "id1_sel = after initial_heap [Id_sel ''id1'']"

definition div_main :: heap where
  "div_main = after initial_heap [Element ''div'', Id_sel ''main'']"

definition table_wide :: heap where
  "table_wide = after initial_heap [Element ''table'', Class ''wide'']"

text \<open>
  \<^verbatim>\<open>element('a')\<close> and \<^verbatim>\<open>element('b')\<close>, at references 1 and 2, and the store after
  \<^verbatim>\<open>combine\<close> has joined them on the builder and nothing has rendered the result.
\<close>

definition pair :: heap where
  "pair = after (after initial_heap [Element ''a'']) [Element ''b'']"

definition pair_combined :: heap where
  "pair_combined = snd (combine pair cssSelectorBuilder 1 ''+'' 2)"

text \<open>Four selectors \<^verbatim>\<open>element('a')\<close> to \<^verbatim>\<open>element('d')\<close>, at references 1 to 4.\<close>

definition four :: heap where
  "four = after (after (after (after initial_heap [Element ''a'']) [Element ''b''])
            [Element ''c'']) [Element ''d'']"

text \<open>
  \<^verbatim>\<open>combine(combine(a, '+', b), '~', combine(c, '>', d))\<close>: JavaScript evaluates the
  arguments from left to right, so both inner calls have returned before the outer one
  starts, and both have returned their \<^verbatim>\<open>this\<close>, the builder.
\<close>

definition four_left :: heap where
  "four_left = snd (combine four cssSelectorBuilder 1 ''+'' 2)"

definition four_both :: heap where
  "four_both = snd (combine four_left cssSelectorBuilder 3 ''>'' 4)"

text \<open>
  The nested example of the source's comment. Its four selectors are built in the order
  their expressions stand in, at references 4, 6, 8 and 10; then the innermost
  \<^verbatim>\<open>combine\<close> runs, then the middle one, whose second argument is the builder the
  innermost returned.
\<close>

definition nested_A :: heap where
  "nested_A = after initial_heap
     [Element ''div'', Id_sel ''main'', Class ''container'', Class ''draggable'']"

definition nested_B :: heap where
  "nested_B = after nested_A [Element ''table'', Id_sel ''data'']"

definition nested_C :: heap where
  "nested_C = after nested_B [Element ''tr'', PseudoClass ''nth-of-type(even)'']"

definition nested_D :: heap where
  "nested_D = after nested_C [Element ''td'', PseudoClass ''nth-of-type(even)'']"

definition nested_inner :: heap where
  "nested_inner = snd (combine nested_D cssSelectorBuilder 8 '' '' 10)"

definition nested_middle :: heap where
  "nested_middle = snd (combine nested_inner cssSelectorBuilder 6 ''~'' cssSelectorBuilder)"

text \<open>The double quote, for the texts that contain one.\<close>

definition dquote :: char where
  "dquote = CHR 0x22"

section \<open>Rectangle and the JSON helpers of \<^verbatim>\<open>src/06-objects-tasks.js\<close>\<close>

text \<open>
  These functions hand objects to \<^verbatim>\<open>JSON.stringify\<close>, \<^verbatim>\<open>JSON.parse\<close> and
  \<^verbatim>\<open>Object.setPrototypeOf\<close> and read properties through the prototype chain. Objects
  live in a store of their own and are named by references, so that the arrow function a
  constructor call makes can keep the object of that call. An object is its own
  properties, in insertion order, and the reference of its prototype. Values are the ones
  the functions meet here: \<^verbatim>\<open>undefined\<close>, integral numbers and functions.
\<close>

subsection \<open>Objects and property access\<close>

type_synonym oref = nat

datatype fn = Rectangle_function | getArea_arrow oref | Native string

datatype jsval = Undefined | Num int | Function fn

datatype jsobj = JSObject (properties: "(string \<times> jsval) list") (prototype: "oref option")

type_synonym realm = "jsobj list"

text \<open>
  What a call comes to: a value, a TypeError, or something these definitions do not
  follow the language into.
\<close>

datatype 'a completion = Returned 'a | TypeError | Not_modelled

text \<open>
  \<^verbatim>\<open>o.k\<close>: the own property, else the prototype's, else \<^verbatim>\<open>undefined\<close>. The language
  keeps prototype chains free of cycles, so a chain has at most as many objects as the
  store, and that many steps are allowed; \<open>None\<close> is a reference outside the store or a
  chain with a cycle, which the language has not.
\<close>

fun lookup :: "nat \<Rightarrow> realm \<Rightarrow> oref \<Rightarrow> string \<Rightarrow> jsval option" where
  "lookup 0 s ob k = None"
| "lookup (Suc fuel) s ob k =
     (if ob < length s
      then (case map_of (properties (s ! ob)) k of
              Some v \<Rightarrow> Some v
            | None \<Rightarrow>
                (case prototype (s ! ob) of
                   None \<Rightarrow> Some Undefined
                 | Some p \<Rightarrow> lookup fuel s p k))
      else None)"

definition get_prop :: "realm \<Rightarrow> oref \<Rightarrow> string \<Rightarrow> jsval option" where
  "get_prop s ob k = lookup (length s) s ob k"

text \<open>The property list with \<open>k\<close> set to \<open>v\<close>: an existing key keeps its place.\<close>

fun put_prop :: "(string \<times> jsval) list \<Rightarrow> string \<Rightarrow> jsval \<Rightarrow> (string \<times> jsval) list" where
  "put_prop [] k v = [(k, v)]"
| "put_prop ((k', v') # ps) k v = (if k' = k then (k, v) # ps else (k', v') # put_prop ps k v)"

text \<open>
  \<^verbatim>\<open>o.k = v\<close> makes or updates an own property. The key \<^verbatim>\<open>__proto__\<close> is behind a
  setter of \<^verbatim>\<open>Object.prototype\<close> and is not followed.
\<close>

definition assign :: "realm \<Rightarrow> oref \<Rightarrow> string \<Rightarrow> jsval \<Rightarrow> realm option" where
  "assign s ob k v =
     (if ob < length s \<and> k \<noteq> ''__proto__''
      then Some (s[ob := JSObject (put_prop (properties (s ! ob)) k v) (prototype (s ! ob))])
      else None)"

text \<open>A new object takes the next free reference.\<close>

definition allocate :: "realm \<Rightarrow> jsobj \<Rightarrow> oref \<times> realm" where
  "allocate s ob = (length s, s @ [ob])"

text \<open>
  The store when the module has been loaded: \<^verbatim>\<open>Object.prototype\<close>, by the names of its
  properties, and the prototype object that the declaration of \<^verbatim>\<open>Rectangle\<close> comes
  with, whose one own property is \<^verbatim>\<open>constructor\<close>; the source adds nothing to it. Each
  name of \<^verbatim>\<open>Object.prototype\<close> stands for what the language keeps under it; none of the
  functions here looks at that.
\<close>

definition Object_prototype :: oref where
  "Object_prototype = 0"

definition Rectangle_prototype :: oref where
  "Rectangle_prototype = 1"

definition loaded :: realm where
  "loaded =
     [JSObject (map (\<lambda>n. (n, Function (Native n)))
        [''constructor'', ''hasOwnProperty'', ''isPrototypeOf'', ''propertyIsEnumerable'',
         ''toLocaleString'', ''toString'', ''valueOf'', ''__defineGetter__'',
         ''__defineSetter__'', ''__lookupGetter__'', ''__lookupSetter__'', ''__proto__'']) None,
      JSObject [(''constructor'', Function Rectangle_function)] (Some Object_prototype)]"

subsection \<open>Rectangle\<close>

text \<open>
  \<^verbatim>\<open>new Rectangle(width, height)\<close> makes an object whose prototype is
  \<^verbatim>\<open>Rectangle.prototype\<close> and runs the body on it, which stores three own properties;
  the third is an arrow function, which keeps the \<^verbatim>\<open>this\<close> of the body.
\<close>

definition Rectangle :: "realm \<Rightarrow> int \<Rightarrow> int \<Rightarrow> (oref \<times> realm) option" where
  "Rectangle s width height =
     (let (this, s0) = allocate s (JSObject [] (Some Rectangle_prototype))
      in do {
        s1 \<leftarrow> assign s0 this ''width'' (Num width);
        s2 \<leftarrow> assign s1 this ''height'' (Num height);
        s3 \<leftarrow> assign s2 this ''getArea'' (Function (getArea_arrow this));
        Some (this, s3)
      })"

text \<open>Integral numbers are exact strictly between \<open>- (2 ^ 53)\<close> and \<open>2 ^ 53\<close>.\<close>

definition safe_integer :: "int \<Rightarrow> bool" where
  "safe_integer n \<longleftrightarrow> - (2 ^ 53) < n \<and> n < 2 ^ 53"

fun multiply :: "jsval \<Rightarrow> jsval \<Rightarrow> jsval completion" where
  "multiply (Num a) (Num b) = (if safe_integer (a * b) then Returned (Num (a * b)) else Not_modelled)"
| "multiply a b = Not_modelled"

text \<open>
  \<^verbatim>\<open>o.m()\<close>. Calling what is not a function throws a TypeError. The arrow function
  multiplies \<^verbatim>\<open>this.width\<close> and \<^verbatim>\<open>this.height\<close> of the object it was made for,
  whichever object it is read from and as that object is at the time of the call; the
  other functions are not run here.
\<close>

definition call_method :: "realm \<Rightarrow> oref \<Rightarrow> string \<Rightarrow> jsval completion" where
  "call_method s ob m =
     (case get_prop s ob m of
        None \<Rightarrow> Not_modelled
      | Some (Function (getArea_arrow this)) \<Rightarrow>
          (case get_prop s this ''width'' of
             None \<Rightarrow> Not_modelled
           | Some a \<Rightarrow>
               (case get_prop s this ''height'' of
                  None \<Rightarrow> Not_modelled
                | Some b \<Rightarrow> multiply a b))
      | Some (Function f) \<Rightarrow> Not_modelled
      | Some v \<Rightarrow> TypeError)"

subsection \<open>JSON text\<close>

text \<open>
  \<^verbatim>\<open>JSON.stringify\<close> and \<^verbatim>\<open>JSON.parse\<close> belong to the language, not to the source.
  They are modelled on flat objects: keys of printable ASCII without the double quote
  and the backslash, which are written without escapes, and integral values within the
  safe range, which are written in decimal. \<open>None\<close> stands for every other input,
  which either throws or has a result of another shape. Properties whose value is
  \<^verbatim>\<open>undefined\<close> or a function are left out of the text.
\<close>

definition digit_char :: "nat \<Rightarrow> char" where
  "digit_char d = ''0123456789'' ! d"

fun decimal :: "nat \<Rightarrow> string" where
  "decimal n = (if n < 10 then [digit_char n] else decimal (n div 10) @ [digit_char (n mod 10)])"

declare decimal.simps [simp del]

definition number_text :: "int \<Rightarrow> string" where
  "number_text n = (if n < 0 then ''-'' @ decimal (nat (- n)) else decimal (nat n))"

definition plain_char :: "char \<Rightarrow> bool" where
  "plain_char c \<longleftrightarrow>
     32 \<le> (of_char c :: nat) \<and> (of_char c :: nat) < 127 \<and> c \<noteq> dquote \<and> c \<noteq> CHR 0x5C"

text \<open>
  A key made of digits only may be an array index, and those are enumerated before the
  other keys whatever the insertion order; such keys are left out of the model.
\<close>

definition plain_key :: "string \<Rightarrow> bool" where
  "plain_key k \<longleftrightarrow> list_all plain_char k \<and> (k = [] \<or> \<not> list_all (\<lambda>c. c \<in> set ''0123456789'') k)"

fun member_text :: "string \<times> jsval \<Rightarrow> string option" where
  "member_text (k, Num n) = Some ([dquote] @ k @ [dquote] @ '':'' @ number_text n)"
| "member_text (k, v) = None"

fun join :: "string list \<Rightarrow> string" where
  "join [] = []"
| "join [x] = x"
| "join (x # y # zs) = x @ '','' @ join (y # zs)"

definition in_fragment :: "string \<times> jsval \<Rightarrow> bool" where
  "in_fragment p = (plain_key (fst p) \<and>
     (case snd p of Num n \<Rightarrow> safe_integer n | v \<Rightarrow> True))"

definition JSON_stringify :: "realm \<Rightarrow> oref \<Rightarrow> string option" where
  "JSON_stringify s ob =
     (if ob < length s \<and> list_all in_fragment (properties (s ! ob)) \<and>
         get_prop s ob ''toJSON'' = Some Undefined
      then Some (''{'' @ join (List.map_filter member_text (properties (s ! ob))) @ ''}'')
      else None)"

text \<open>The parser reads the text character by character.\<close>

datatype pstate =
    Start
  | Open "(string \<times> jsval) list"
  | Comma "(string \<times> jsval) list"
  | InKey "(string \<times> jsval) list" string
  | AfterKey "(string \<times> jsval) list" string
  | BeforeValue "(string \<times> jsval) list" string
  | Sign "(string \<times> jsval) list" string
  | Zero "(string \<times> jsval) list" string
  | Digits "(string \<times> jsval) list" string bool nat
  | AfterValue "(string \<times> jsval) list"
  | Closed "(string \<times> jsval) list"
  | Rejected

definition whitespace :: "char \<Rightarrow> bool" where
  "whitespace c \<longleftrightarrow> c = CHR '' '' \<or> c = CHR 0x09 \<or> c = CHR 0x0A \<or> c = CHR 0x0D"

definition digit_value :: "char \<Rightarrow> nat option" where
  "digit_value c = map_of (zip ''0123456789'' [0..<10]) c"

definition number :: "bool \<Rightarrow> nat \<Rightarrow> int" where
  "number negative n = (if negative then - int n else int n)"

text \<open>The end of a number: the property is stored, and \<open>c\<close> is read in the state after a value.\<close>

definition after_number ::
    "(string \<times> jsval) list \<Rightarrow> string \<Rightarrow> int \<Rightarrow> char \<Rightarrow> pstate" where
  "after_number ps k n c =
     (if \<not> safe_integer n then Rejected
      else if whitespace c then AfterValue (put_prop ps k (Num n))
      else if c = CHR '','' then Comma (put_prop ps k (Num n))
      else if c = CHR ''}'' then Closed (put_prop ps k (Num n))
      else Rejected)"

fun step :: "pstate \<Rightarrow> char \<Rightarrow> pstate" where
  "step Start c = (if whitespace c then Start else if c = CHR ''{'' then Open [] else Rejected)"
| "step (Open ps) c =
     (if whitespace c then Open ps else if c = dquote then InKey ps []
      else if c = CHR ''}'' then Closed ps else Rejected)"
| "step (Comma ps) c =
     (if whitespace c then Comma ps else if c = dquote then InKey ps [] else Rejected)"
| "step (InKey ps k) c =
     (if c = dquote then (if plain_key k then AfterKey ps k else Rejected)
      else if plain_char c then InKey ps (k @ [c])
      else Rejected)"
| "step (AfterKey ps k) c =
     (if whitespace c then AfterKey ps k else if c = CHR '':'' then BeforeValue ps k else Rejected)"
| "step (BeforeValue ps k) c =
     (if whitespace c then BeforeValue ps k
      else if c = CHR ''-'' then Sign ps k
      else (case digit_value c of
              None \<Rightarrow> Rejected
            | Some d \<Rightarrow> if d = 0 then Zero ps k else Digits ps k False d))"
| "step (Sign ps k) c =
     (case digit_value c of
        None \<Rightarrow> Rejected
      | Some d \<Rightarrow> if d = 0 then Rejected else Digits ps k True d)"
| "step (Zero ps k) c = after_number ps k 0 c"
| "step (Digits ps k negative n) c =
     (case digit_value c of
        Some d \<Rightarrow> Digits ps k negative (10 * n + d)
      | None \<Rightarrow> after_number ps k (number negative n) c)"
| "step (AfterValue ps) c =
     (if whitespace c then AfterValue ps else if c = CHR '','' then Comma ps
      else if c = CHR ''}'' then Closed ps else Rejected)"
| "step (Closed ps) c = (if whitespace c then Closed ps else Rejected)"
| "step Rejected c = Rejected"

text \<open>The object parsed is a new object of the store, with \<^verbatim>\<open>Object.prototype\<close>.\<close>

definition JSON_parse :: "realm \<Rightarrow> string \<Rightarrow> (oref \<times> realm) option" where
  "JSON_parse s text =
     (case foldl step Start text of
        Closed ps \<Rightarrow> Some (allocate s (JSObject ps (Some Object_prototype)))
      | other \<Rightarrow> None)"

text \<open>
  \<^verbatim>\<open>Object.setPrototypeOf(o, proto)\<close> gives \<open>o\<close> the prototype and returns \<open>o\<close>. It
  throws a TypeError when \<open>o\<close> is \<^verbatim>\<open>Object.prototype\<close>, whose prototype is fixed, and
  when \<open>o\<close> is \<open>proto\<close> or on the chain of \<open>proto\<close>, which would close a cycle; it does
  nothing when \<open>proto\<close> is the prototype already.
\<close>

fun on_chain :: "nat \<Rightarrow> realm \<Rightarrow> oref \<Rightarrow> oref \<Rightarrow> bool" where
  "on_chain 0 s p ob = False"
| "on_chain (Suc fuel) s p ob =
     (p = ob \<or>
      (p < length s \<and> (case prototype (s ! p) of None \<Rightarrow> False | Some q \<Rightarrow> on_chain fuel s q ob)))"

definition setPrototypeOf :: "realm \<Rightarrow> oref \<Rightarrow> oref \<Rightarrow> (oref \<times> realm) completion" where
  "setPrototypeOf s ob proto =
     (if \<not> (ob < length s \<and> proto < length s) then Not_modelled
      else if prototype (s ! ob) = Some proto then Returned (ob, s)
      else if ob = Object_prototype \<or> on_chain (length s) s proto ob then TypeError
      else Returned (ob, s[ob := JSObject (properties (s ! ob)) (Some proto)]))"

subsection \<open>The two helpers\<close>

definition getJSON :: "realm \<Rightarrow> oref \<Rightarrow> string option" where
  "getJSON s obj = JSON_stringify s obj"

definition fromJSON :: "realm \<Rightarrow> oref \<Rightarrow> string \<Rightarrow> (oref \<times> realm) completion" where
  "fromJSON s proto json =
     (case JSON_parse s json of
        None \<Rightarrow> Not_modelled
      | Some (parsed, s1) \<Rightarrow> setPrototypeOf s1 parsed proto)"

subsection \<open>Example objects\<close>

text \<open>
  The object literal \<^verbatim>\<open>{ width: 10, height: 20 }\<close>, made at reference 2 of the loaded
  store, and the text of it.
\<close>

definition width_height :: oref where
  "width_height = 2"

definition with_literal :: realm where
  "with_literal =
     snd (allocate loaded
       (JSObject [(''width'', Num 10), (''height'', Num 20)] (Some Object_prototype)))"

definition width_height_text :: string where
  "width_height_text =
     ''{'' @ [dquote] @ ''width'' @ [dquote] @ '':10,'' @ [dquote] @ ''height'' @ [dquote] @ '':20}''"

text \<open>The store after \<^verbatim>\<open>fromJSON\<close> has decoded that text: the decoded object is at reference 3.\<close>

definition decoded :: realm where
  "decoded =
     with_literal @ [JSObject [(''width'', Num 10), (''height'', Num 20)] (Some Rectangle_prototype)]"

text \<open>
  The store after \<^verbatim>\<open>new Rectangle(10, 20)\<close> in the loaded store, the rectangle at
  reference 2; then a second rectangle of 6 by 10 at reference 3 that is given the first
  one's \<^verbatim>\<open>getArea\<close>; then the first one with its width set to 5.
\<close>

definition one_rectangle :: realm where
  "one_rectangle = (case Rectangle loaded 10 20 of Some (r, s) \<Rightarrow> s | None \<Rightarrow> loaded)"

definition borrowed_arrow :: realm where
  "borrowed_arrow =
     (case Rectangle one_rectangle 6 10 of
        Some (r, s) \<Rightarrow>
          (case get_prop s 2 ''getArea'' of
             Some f \<Rightarrow> (case assign s r ''getArea'' f of Some s' \<Rightarrow> s' | None \<Rightarrow> s)
           | None \<Rightarrow> s)
      | None \<Rightarrow> one_rectangle)"

definition narrowed :: realm where
  "narrowed = (case assign borrowed_arrow 2 ''width'' (Num 5) of Some s \<Rightarrow> s | None \<Rightarrow> borrowed_arrow)"


section \<open>Properties of the selector builder\<close>

subsection \<open>The methods in closed form\<close>

lemma invoke_part: "invoke h this c = part (slot c) (unique c) (decorated c) h this"
  by (cases c)
    (simp_all add: part_def element_def id_sel_def class_sel_def attr_def pseudoClass_def
      pseudoElement_def shouldNotOccurMoreThenOneTime_def split: option.split prod.split)

text \<open>The two errors carry different messages, which is how a caller tells them apart.\<close>

lemma message_distinct: "message MoreThenOneTime \<noteq> message WrongOrder"
  by simp

lemma checkOrder_loop_eq:
  "checkOrder_loop used i =
     (if \<exists>j. i \<le> j \<and> j < length used \<and> used ! j then Some WrongOrder else None)"
proof (induction used i rule: checkOrder_loop.induct)
  case (1 used i)
  show ?case
  proof (cases "i < length used")
    case False
    then show ?thesis by (subst checkOrder_loop.simps) auto
  next
    case in_range: True
    show ?thesis
    proof (cases "used ! i")
      case True
      with in_range show ?thesis
        by (subst checkOrder_loop.simps) (auto simp: js_index_def)
    next
      case False
      then have "(\<exists>j. i \<le> j \<and> j < length used \<and> used ! j) =
          (\<exists>j. i + 1 \<le> j \<and> j < length used \<and> used ! j)"
        by (metis Suc_eq_plus1 Suc_leI le_neq_implies_less Suc_leD)
      with 1 False in_range show ?thesis
        by (subst checkOrder_loop.simps) (simp add: js_index_def)
    qed
  qed
qed

lemma checkOrder_eq:
  "checkOrder h this order = (if later_used (used_of h this) order then Some WrongOrder else None)"
  by (simp add: checkOrder_def checkOrder_loop_eq later_used_def Suc_le_eq)

lemma copyObject_live:
  "live h this \<Longrightarrow>
   copyObject h this = (length (objects h), copied h (string_of h this) (used_of h this))"
  by (simp add: copyObject_def copied_def live_def Let_def used_of_def string_of_def nth_append)

lemma used_of_copied [simp]: "used_of (copied h s used) (length (objects h)) = used"
  by (simp add: used_of_def copied_def)

lemma string_of_copied [simp]: "string_of (copied h s used) (length (objects h)) = s"
  by (simp add: string_of_def copied_def)

lemma put_used_copied [simp]:
  "put_used (copied h s used) (length (objects h)) i b = copied h s (js_assign used i b)"
  by (simp add: put_used_def copied_def)

lemma getString_copied [simp]:
  "getString (copied h s used) (length (objects h)) v = copied h (s @ v) used"
  by (simp add: getString_def put_string_def copied_def string_of_def Let_def)

lemma live_copied: "live (copied h s used) (length (objects h))"
  by (simp add: live_def copied_def)

lemma live_after_copied:
  "live h r \<Longrightarrow> live (copied h s used) r"
  "live h r \<Longrightarrow> string_of (copied h s used) r = string_of h r"
  "live h r \<Longrightarrow> used_of (copied h s used) r = used_of h r"
  by (simp_all add: live_def copied_def string_of_def used_of_def nth_append)

lemma part_live:
  "live h this \<Longrightarrow>
   part order guarded text h this =
     (if later_used (used_of h this) order then (Inl WrongOrder, h)
      else if guarded \<and> js_index (used_of h this) order
        then (Inl MoreThenOneTime, copied h (string_of h this) (used_of h this))
        else (Inr (length (objects h)),
              copied h (string_of h this @ text) (js_assign (used_of h this) order True)))"
  by (simp add: part_def checkOrder_eq copyObject_live)

lemma invoke_success:
  assumes "live h this" "invoke h this c = (Inr r, h')"
  shows "r = length (objects h)"
    and "h' = copied h (string_of h this @ decorated c) (js_assign (used_of h this) (slot c) True)"
    and "\<not> later_used (used_of h this) (slot c)"
    and "unique c \<Longrightarrow> \<not> js_index (used_of h this) (slot c)"
  using assms by (auto simp: invoke_part part_live split: if_splits)

lemma invoke_success_view:
  assumes "live h this" "invoke h this c = (Inr r, h')"
  shows "live h' r" and "string_of h' r = string_of h this @ decorated c"
    and "used_of h' r = js_assign (used_of h this) (slot c) True"
  using invoke_success(1,2)[OF assms] by (simp_all add: live_copied)

lemma slot_less_6: "slot c < 6"
  by (cases c) simp_all

lemma unique_slot: "unique c \<longleftrightarrow> slot c \<in> {0, 1, 5}"
  by (cases c) simp_all

lemma js_assign_in_range: "i < length xs \<Longrightarrow> js_assign xs i b = xs[i := b]"
  by (simp add: js_assign_def)

lemma later_used_code [code]: "later_used used order = (True \<in> set (drop (Suc order) used))"
proof
  assume "later_used used order"
  then obtain i where i: "order < i" "i < length used" "used ! i"
    unfolding later_used_def by blast
  then have "i - Suc order < length (drop (Suc order) used)"
    and "drop (Suc order) used ! (i - Suc order) = used ! i"
    by simp_all
  with i(3) show "True \<in> set (drop (Suc order) used)"
    by (metis nth_mem)
next
  assume "True \<in> set (drop (Suc order) used)"
  then obtain j where j: "j < length (drop (Suc order) used)" "drop (Suc order) used ! j"
    by (auto simp: in_set_conv_nth)
  then have "order < Suc order + j" "Suc order + j < length used" "used ! (Suc order + j)"
    by simp_all
  then show "later_used used order"
    unfolding later_used_def by blast
qed


subsection \<open>Chains of calls\<close>

lemma chain_string:
  "live h this \<Longrightarrow> chain h this cs = (Inr r, h') \<Longrightarrow>
     live h' r \<and> string_of h' r = string_of h this @ concat (map decorated cs)"
proof (induction cs arbitrary: h this)
  case Nil
  then show ?case by simp
next
  case (Cons c cs)
  from Cons.prems(2) obtain r1 h1 where
    step: "invoke h this c = (Inr r1, h1)" and rest: "chain h1 r1 cs = (Inr r, h')"
    by (auto split: prod.splits sum.splits)
  from invoke_success_view[OF Cons.prems(1) step] Cons.IH[OF _ rest]
  show ?case by simp
qed

text \<open>A chain that returns has set the flag of every call in it and cleared none.\<close>

lemma chain_flags:
  "live h this \<Longrightarrow> length (used_of h this) = 6 \<Longrightarrow> chain h this cs = (Inr r, h') \<Longrightarrow>
     live h' r \<and> length (used_of h' r) = 6 \<and> (\<forall>c\<in>set cs. used_of h' r ! slot c) \<and>
     (\<forall>i<6. used_of h this ! i \<longrightarrow> used_of h' r ! i)"
proof (induction cs arbitrary: h this)
  case Nil
  then show ?case by simp
next
  case (Cons c cs)
  from Cons.prems(3) obtain r1 h1 where
    step: "invoke h this c = (Inr r1, h1)" and rest: "chain h1 r1 cs = (Inr r, h')"
    by (auto split: prod.splits sum.splits)
  note view = invoke_success_view[OF Cons.prems(1) step]
  have in_range: "slot c < length (used_of h this)"
    using Cons.prems(2) slot_less_6[of c] by simp
  have used1: "used_of h1 r1 = (used_of h this)[slot c := True]"
    using view(3) in_range by (simp add: js_assign_in_range)
  then have len1: "length (used_of h1 r1) = 6"
    using Cons.prems(2) by simp
  from Cons.IH[OF view(1) len1 rest]
  have IH: "live h' r" "length (used_of h' r) = 6" "\<forall>d\<in>set cs. used_of h' r ! slot d"
    "\<forall>i<6. used_of h1 r1 ! i \<longrightarrow> used_of h' r ! i"
    by simp_all
  have "used_of h1 r1 ! slot c"
    using used1 in_range by simp
  then have here: "used_of h' r ! slot c"
    using IH(4) slot_less_6[of c] by simp
  have kept: "used_of h' r ! i" if "i < 6" "used_of h this ! i" for i
  proof -
    have "used_of h1 r1 ! i"
      using that in_range used1 by (simp add: nth_list_update)
    with IH(4) that(1) show ?thesis by simp
  qed
  show ?case using IH(1,2,3) here kept by simp
qed

text \<open>
  When the calls are in slot order, no guarded call comes twice and the receiver's flags
  are in the way of none of them, every call of the chain returns.
\<close>

lemma chain_total:
  "live h this \<Longrightarrow> length (used_of h this) = 6 \<Longrightarrow> sorted (map slot cs) \<Longrightarrow> once cs \<Longrightarrow>
   \<forall>c\<in>set cs. \<not> later_used (used_of h this) (slot c) \<Longrightarrow>
   \<forall>c\<in>set cs. unique c \<longrightarrow> \<not> js_index (used_of h this) (slot c) \<Longrightarrow>
   \<exists>r h'. chain h this cs = (Inr r, h')"
proof (induction cs arbitrary: h this)
  case Nil
  then show ?case by simp
next
  case (Cons c cs)
  define used1 where "used1 = (used_of h this)[slot c := True]"
  define h1 where "h1 = copied h (string_of h this @ decorated c) used1"
  define r1 where "r1 = length (objects h)"
  have in_range: "slot c < length (used_of h this)"
    using Cons.prems(2) slot_less_6[of c] by simp
  have step: "invoke h this c = (Inr r1, h1)"
    using Cons.prems(1,5,6) in_range
    by (simp add: invoke_part part_live js_assign_in_range h1_def r1_def used1_def)
  have live1: "live h1 r1" and used_eq: "used_of h1 r1 = used1"
    by (simp_all add: h1_def r1_def live_copied)
  have len1: "length (used_of h1 r1) = 6"
    using Cons.prems(2) by (simp add: used_eq used1_def)
  have sorted_cs: "sorted (map slot cs)" and le: "\<forall>d\<in>set cs. slot c \<le> slot d"
    using Cons.prems(3) by simp_all
  have once_cs: "once cs"
    using Cons.prems(4) by (auto simp: once_def split: if_splits)
  have later1: "\<forall>d\<in>set cs. \<not> later_used (used_of h1 r1) (slot d)"
  proof
    fix d assume d: "d \<in> set cs"
    show "\<not> later_used (used_of h1 r1) (slot d)"
    proof
      assume "later_used (used_of h1 r1) (slot d)"
      then obtain i where i: "slot d < i" "i < length (used_of h this)" "used1 ! i"
        unfolding later_used_def used_eq by (auto simp: used1_def)
      have "i \<noteq> slot c" using le d i(1) by auto
      then have "used_of h this ! i" using i by (simp add: used1_def)
      with i have "later_used (used_of h this) (slot d)"
        unfolding later_used_def by blast
      with Cons.prems(5) d show False by simp
    qed
  qed
  have unused1: "\<forall>d\<in>set cs. unique d \<longrightarrow> \<not> js_index (used_of h1 r1) (slot d)"
  proof (intro ballI impI)
    fix d assume d: "d \<in> set cs" "unique d"
    have "slot d \<noteq> slot c"
    proof
      assume eq: "slot d = slot c"
      then have "unique c" using d(2) by (simp add: unique_slot)
      then have "slot c \<notin> slot ` set (filter unique cs)"
        using Cons.prems(4) by (simp add: once_def)
      moreover have "slot d \<in> slot ` set (filter unique cs)"
        using d by simp
      ultimately show False using eq by simp
    qed
    moreover have "\<not> js_index (used_of h this) (slot d)"
      using Cons.prems(6) d by simp
    ultimately show "\<not> js_index (used_of h1 r1) (slot d)"
      by (simp add: used_eq used1_def js_index_def)
  qed
  from Cons.IH[OF live1 len1 sorted_cs once_cs later1 unused1] step
  show ?case by simp
qed

lemma same_slot_chain:
  assumes "live h this" and "length (used_of h this) = 6" and "k \<in> {2, 3, 4}"
    and "\<forall>c\<in>set ds. slot c = k" and "\<not> later_used (used_of h this) k"
  shows "\<exists>r h'. chain h this ds = (Inr r, h')"
proof -
  have "map slot ds = replicate (length ds) k"
    using assms(4) by (simp add: map_replicate_const[symmetric] cong: map_cong)
  then have "sorted (map slot ds)" by simp
  moreover have "filter unique ds = []"
    using assms(3,4) by (auto simp: filter_empty_conv unique_slot)
  then have "once ds" by (simp add: once_def)
  moreover have "\<forall>c\<in>set ds. \<not> later_used (used_of h this) (slot c)"
    using assms(4,5) by simp
  moreover have "\<forall>c\<in>set ds. unique c \<longrightarrow> \<not> js_index (used_of h this) (slot c)"
    using assms(3,4) by (auto simp: unique_slot)
  ultimately show ?thesis
    using chain_total[OF assms(1,2)] by blast
qed

lemma unflagged_unused:
  "used_of h this = replicate 6 False \<Longrightarrow>
     \<not> later_used (used_of h this) i \<and> \<not> js_index (used_of h this) j"
  by (auto simp: later_used_def js_index_def)

subsection \<open>Rendering in slot order\<close>

lemma upt_6: "[0..<6] = [0, 1, 2, 3, 4, 5::nat]"
  by (simp add: upt_rec)

text \<open>For calls in slot order, the texts taken slot by slot are the texts in call order.\<close>

lemma spec_render_sorted:
  "sorted (map slot cs) \<Longrightarrow> spec_render cs = concat (map decorated cs)"
proof (induction cs)
  case Nil
  then show ?case by (simp add: spec_render_def slot_text_def)
next
  case (Cons c cs)
  then have IH: "spec_render cs = concat (map decorated cs)"
    and le: "\<forall>d\<in>set cs. slot c \<le> slot d"
    by simp_all
  have empty: "\<And>i. i < slot c \<Longrightarrow> filter (\<lambda>d. slot d = i) cs = []"
    using le by (auto simp: filter_empty_conv)
  show ?case
    using IH empty by (cases c) (simp_all add: spec_render_def slot_text_def upt_6)
qed

lemma initial_builder:
  "live initial_heap cssSelectorBuilder"
  "string_of initial_heap cssSelectorBuilder = []"
  "used_of initial_heap cssSelectorBuilder = replicate 6 False"
  by (simp_all add: live_def initial_heap_def cssSelectorBuilder_def string_of_def
      used_of_def eval_nat_numeral)

section \<open>The claims about the selector builder\<close>

text \<open>
  Claim C1, as amended. Take any builder value and a chain of appends on it in
  non-decreasing slot order. Whenever the chain returns a value, \<^verbatim>\<open>stringify\<close> called
  on that value returns the text the starting value held, followed by the concatenation,
  slot by slot from 0 to 5, of the decorated texts appended to each slot: the type
  verbatim, the id after \<open>#\<close>, a class after \<open>.\<close>, an attribute between \<open>[\<close> and \<open>]\<close>, a
  pseudo-class after \<open>:\<close>, a pseudo-element after \<open>::\<close>; a slot without appends
  contributes nothing. The chain does return a value when the starting value has no flag
  set and element, id and pseudo-element come at most once each. The builder of the
  module holds the empty text when it is loaded and after each \<^verbatim>\<open>stringify\<close> of it, and
  then the rendering is the concatenation alone.
\<close>

theorem render_concatenates:
  assumes "live h this" and "sorted (map slot cs)"
  shows "(used_of h this = replicate 6 False \<and> once cs \<longrightarrow>
            (\<exists>r h'. chain h this cs = (Inr r, h'))) \<and>
         (\<forall>r h'. chain h this cs = (Inr r, h') \<longrightarrow>
            fst (stringify h' r) = string_of h this @ spec_render cs)"
proof -
  have returns: "\<exists>r h'. chain h this cs = (Inr r, h')"
    if unflagged: "used_of h this = replicate 6 False" and "once cs"
  proof -
    have "length (used_of h this) = 6"
      using unflagged by simp
    from chain_total[OF assms(1) this assms(2) that(2)] unflagged_unused[OF unflagged]
    show ?thesis by blast
  qed
  have renders: "fst (stringify h' r) = string_of h this @ spec_render cs"
    if built: "chain h this cs = (Inr r, h')" for r h'
    using chain_string[OF assms(1) built] spec_render_sorted[OF assms(2)]
    by (simp add: stringify_def)
  from returns renders show ?thesis
    by blast
qed

text \<open>
  The two examples of the claim: \<^verbatim>\<open>id('main').class('container').class('editable')\<close>
  and \<^verbatim>\<open>element('a').attr('href$=".png"').pseudoClass('focus')\<close>, each on the
  builder of the module as it is loaded.
\<close>

theorem render_concatenates_witness:
  "live initial_heap cssSelectorBuilder \<and>
   used_of initial_heap cssSelectorBuilder = replicate 6 False \<and>
   string_of initial_heap cssSelectorBuilder = [] \<and>
   sorted (map slot [Id_sel ''main'', Class ''container'', Class ''editable'']) \<and>
   once [Id_sel ''main'', Class ''container'', Class ''editable''] \<and>
   chain initial_heap cssSelectorBuilder [Id_sel ''main'', Class ''container'', Class ''editable'']
     = (Inr 3, after initial_heap [Id_sel ''main'', Class ''container'', Class ''editable'']) \<and>
   fst (stringify (after initial_heap [Id_sel ''main'', Class ''container'', Class ''editable'']) 3)
     = ''#main.container.editable'' \<and>
   sorted (map slot [Element ''a'', Attr (''href$='' @ [dquote] @ ''.png'' @ [dquote]),
                     PseudoClass ''focus'']) \<and>
   once [Element ''a'', Attr (''href$='' @ [dquote] @ ''.png'' @ [dquote]), PseudoClass ''focus''] \<and>
   chain initial_heap cssSelectorBuilder
     [Element ''a'', Attr (''href$='' @ [dquote] @ ''.png'' @ [dquote]), PseudoClass ''focus'']
     = (Inr 3, after initial_heap
         [Element ''a'', Attr (''href$='' @ [dquote] @ ''.png'' @ [dquote]),
          PseudoClass ''focus'']) \<and>
   fst (stringify (after initial_heap
          [Element ''a'', Attr (''href$='' @ [dquote] @ ''.png'' @ [dquote]),
           PseudoClass ''focus'']) 3)
     = ''a[href$='' @ [dquote] @ ''.png'' @ [dquote] @ '']:focus''"
proof -
  let ?cs = "[Id_sel ''main'', Class ''container'', Class ''editable'']"
  let ?ds = "[Element ''a'', Attr (''href$='' @ [dquote] @ ''.png'' @ [dquote]),
              PseudoClass ''focus'']"
  have pre_cs: "sorted (map slot ?cs)" "once ?cs"
    and pre_ds: "sorted (map slot ?ds)" "once ?ds"
    by (simp_all add: once_def)
  have r_cs: "chain initial_heap cssSelectorBuilder ?cs = (Inr 3, after initial_heap ?cs)"
    and r_ds: "chain initial_heap cssSelectorBuilder ?ds = (Inr 3, after initial_heap ?ds)"
    by code_simp+
  from render_concatenates[OF initial_builder(1) pre_cs(1)] r_cs initial_builder(2)
  have "fst (stringify (after initial_heap ?cs) 3) = spec_render ?cs"
    by simp
  moreover have "spec_render ?cs = ''#main.container.editable''"
    by (simp add: spec_render_def slot_text_def upt_6)
  moreover from render_concatenates[OF initial_builder(1) pre_ds(1)] r_ds initial_builder(2)
  have "fst (stringify (after initial_heap ?ds) 3) = spec_render ?ds"
    by simp
  moreover have "spec_render ?ds = ''a[href$='' @ [dquote] @ ''.png'' @ [dquote] @ '']:focus''"
    by (simp add: spec_render_def slot_text_def upt_6)
  ultimately show ?thesis
    using initial_builder pre_cs pre_ds r_cs r_ds by simp
qed

text \<open>
  Claim C1 as stated fails on the builder of the module once \<^verbatim>\<open>combine\<close> has stored a
  text in it that nothing has rendered: after \<^verbatim>\<open>combine(element('a'), '+', element('b'))\<close>
  the builder holds \<^verbatim>\<open>'a + b'\<close> and has no flag set, \<^verbatim>\<open>element('c')\<close> on it returns a
  value, and that value renders as \<^verbatim>\<open>'a + bc'\<close>, not as the appended \<^verbatim>\<open>'c'\<close>.
\<close>

theorem render_after_combine:
  "string_of pair_combined cssSelectorBuilder = ''a + b'' \<and>
   used_of pair_combined cssSelectorBuilder = [False, False, False, False, False, False] \<and>
   sorted (map slot [Element ''c'']) \<and>
   chain pair_combined cssSelectorBuilder [Element ''c'']
     = (Inr 3, after pair_combined [Element ''c'']) \<and>
   fst (stringify (after pair_combined [Element ''c'']) 3) = ''a + bc'' \<and>
   spec_render [Element ''c''] = ''c'' \<and>
   fst (stringify (after pair_combined [Element ''c'']) 3) \<noteq> spec_render [Element ''c'']"
  by code_simp

text \<open>
  Claim C2, as amended. \<^verbatim>\<open>stringify\<close> drains: a call on a value of the store returns
  the value's text and leaves the empty text in the value; the flags of every value, the
  arrays and every other object are as before; a further call on the same value returns
  the empty text and changes nothing. Rendering is repeatable from the second call on,
  not from the first.
\<close>

theorem stringify_drains:
  assumes "this < length (objects h)" and "stringify h this = (s, h')"
  shows "s = string_of h this \<and> string_of h' this = [] \<and> stringify h' this = ([], h') \<and>
         arrays h' = arrays h \<and> length (objects h') = length (objects h) \<and>
         (\<forall>r. used_of h' r = used_of h r) \<and>
         (\<forall>r. r \<noteq> this \<longrightarrow> objects h' ! r = objects h ! r)"
proof -
  have h': "h' = put_string h this []" and s: "s = string_of h this"
    using assms(2) by (simp_all add: stringify_def Let_def)
  have empty: "string_of h' this = []"
    using assms(1) by (simp add: h' put_string_def string_of_def)
  have again: "put_string h' this [] = h'"
    using assms(1) by (simp add: h' put_string_def)
  have used: "used_of h' r = used_of h r" for r
    using assms(1) by (cases "r = this") (simp_all add: h' put_string_def used_of_def)
  show ?thesis
    using s empty again used by (simp add: stringify_def h' put_string_def)
qed

text \<open>The selector \<^verbatim>\<open>id('main')\<close>, at reference 1, rendered once and then again.\<close>

theorem stringify_drains_witness:
  "1 < length (objects main_sel) \<and>
   fst (stringify main_sel 1) = ''#main'' \<and>
   string_of (snd (stringify main_sel 1)) 1 = [] \<and>
   stringify (snd (stringify main_sel 1)) 1 = ([], snd (stringify main_sel 1)) \<and>
   used_of (snd (stringify main_sel 1)) 1 = used_of main_sel 1 \<and>
   cssSelectorBuilder \<noteq> 1 \<and>
   objects (snd (stringify main_sel 1)) ! cssSelectorBuilder = objects main_sel ! cssSelectorBuilder"
proof -
  have len: "1 < length (objects main_sel)" and content: "string_of main_sel 1 = ''#main''"
    by code_simp+
  have call: "stringify main_sel 1 = (fst (stringify main_sel 1), snd (stringify main_sel 1))"
    by simp
  from stringify_drains[OF len call] content show ?thesis
    using len by (simp add: cssSelectorBuilder_def)
qed

text \<open>
  Claim C2 as stated fails on \<^verbatim>\<open>id('main')\<close>: the first \<^verbatim>\<open>stringify()\<close> returns
  \<^verbatim>\<open>'#main'\<close> and the second one the empty string.
\<close>

theorem stringify_not_repeatable:
  "fst (chain initial_heap cssSelectorBuilder [Id_sel ''main'']) = Inr 1 \<and>
   fst (stringify main_sel 1) = ''#main'' \<and>
   fst (stringify (snd (stringify main_sel 1)) 1) = [] \<and>
   fst (stringify (snd (stringify main_sel 1)) 1) \<noteq> fst (stringify main_sel 1)"
  by code_simp

text \<open>
  Claim C3. Whatever the append, when a slot after the target's slot is flagged, the call
  throws the ordering error and leaves the store as it was. \<^verbatim>\<open>checkOrder\<close> runs
  first, so this holds also when the target's own slot is flagged: a second element or
  pseudo-element out of order reports the ordering, not the duplication.
\<close>

theorem order_check_first:
  assumes "slot c < i" and "i < length (used_of h this)" and "used_of h this ! i"
  shows "invoke h this c = (Inl WrongOrder, h)"
proof -
  have "later_used (used_of h this) (slot c)"
    unfolding later_used_def using assms by blast
  then show ?thesis
    by (simp add: invoke_part part_def checkOrder_eq)
qed

text \<open>
  \<^verbatim>\<open>element('table').class('wide')\<close>, at reference 2, has the flags of slots 0 and 2
  set; \<^verbatim>\<open>element('div')\<close> on it is a duplicate and out of order.
\<close>

theorem order_check_first_witness:
  "slot (Element ''div'') < 2 \<and> 2 < length (used_of table_wide 2) \<and> used_of table_wide 2 ! 2 \<and>
   js_index (used_of table_wide 2) (slot (Element ''div'')) \<and>
   invoke table_wide 2 (Element ''div'') = (Inl WrongOrder, table_wide)"
proof -
  have flags: "used_of table_wide 2 = [True, False, True, False, False, False]"
    by code_simp
  from order_check_first[of "Element ''div''" 2 table_wide 2] flags show ?thesis
    by (simp add: js_index_def)
qed


text \<open>
  Claim C4, as amended. On a value built by a chain that appended the element, a further
  \<^verbatim>\<open>element\<close> call throws: the duplication error when no slot after slot 0 is flagged,
  the ordering error when one is. On a value built by a chain that appended the
  pseudo-element, a further \<^verbatim>\<open>pseudoElement\<close> call throws the duplication error.
  Class, attribute and pseudo-class calls, any number of them in a row for one of these
  categories, all return when no later slot of the receiver is flagged.
\<close>

theorem repeated_parts:
  assumes "live h this" and "length (used_of h this) = 6"
  shows "(chain h this cs = (Inr r, h') \<and> Element u \<in> set cs \<longrightarrow>
            fst (element h' r v) =
              Inl (if later_used (used_of h' r) 0 then WrongOrder else MoreThenOneTime)) \<and>
         (chain h this cs = (Inr r, h') \<and> PseudoElement w \<in> set cs \<longrightarrow>
            fst (pseudoElement h' r v) = Inl MoreThenOneTime) \<and>
         (k \<in> {2, 3, 4} \<and> (\<forall>c\<in>set ds. slot c = k) \<and> \<not> later_used (used_of h this) k \<longrightarrow>
            (\<exists>r2 h2. chain h this ds = (Inr r2, h2)))"
proof (intro conjI impI)
  assume a: "chain h this cs = (Inr r, h') \<and> Element u \<in> set cs"
  from chain_flags[OF assms] a have "live h' r" "js_index (used_of h' r) 0"
    by (force simp: js_index_def)+
  then show "fst (element h' r v) =
      Inl (if later_used (used_of h' r) 0 then WrongOrder else MoreThenOneTime)"
    using invoke_part[of h' r "Element v"] by (simp add: part_live)
next
  assume a: "chain h this cs = (Inr r, h') \<and> PseudoElement w \<in> set cs"
  from chain_flags[OF assms] a
  have "live h' r" "js_index (used_of h' r) 5" "\<not> later_used (used_of h' r) 5"
    by (force simp: js_index_def later_used_def)+
  then show "fst (pseudoElement h' r v) = Inl MoreThenOneTime"
    using invoke_part[of h' r "PseudoElement v"] by (simp add: part_live)
next
  assume "k \<in> {2, 3, 4} \<and> (\<forall>c\<in>set ds. slot c = k) \<and> \<not> later_used (used_of h this) k"
  then show "\<exists>r2 h2. chain h this ds = (Inr r2, h2)"
    using same_slot_chain[OF assms] by blast
qed

text \<open>
  On the builder of the module: after \<^verbatim>\<open>element('table')\<close> a second element is a
  duplicate; after \<^verbatim>\<open>element('table').pseudoElement('after')\<close> a second element is out
  of order and a second pseudo-element is a duplicate; three classes in a row are built.
\<close>

theorem repeated_parts_witness:
  "live initial_heap cssSelectorBuilder \<and> length (used_of initial_heap cssSelectorBuilder) = 6 \<and>
   chain initial_heap cssSelectorBuilder [Element ''table'']
     = (Inr 1, after initial_heap [Element ''table'']) \<and>
   fst (element (after initial_heap [Element ''table'']) 1 ''div'') = Inl MoreThenOneTime \<and>
   chain initial_heap cssSelectorBuilder [Element ''table'', PseudoElement ''after'']
     = (Inr 2, after initial_heap [Element ''table'', PseudoElement ''after'']) \<and>
   fst (element (after initial_heap [Element ''table'', PseudoElement ''after'']) 2 ''div'')
     = Inl WrongOrder \<and>
   fst (pseudoElement (after initial_heap [Element ''table'', PseudoElement ''after'']) 2 ''before'')
     = Inl MoreThenOneTime \<and>
   (\<exists>r2 h2. chain initial_heap cssSelectorBuilder [Class ''a'', Class ''b'', Class ''c'']
     = (Inr r2, h2))"
proof -
  let ?one = "[Element ''table'']"
  let ?two = "[Element ''table'', PseudoElement ''after'']"
  let ?ds = "[Class ''a'', Class ''b'', Class ''c'']"
  have start: "live initial_heap cssSelectorBuilder"
    "length (used_of initial_heap cssSelectorBuilder) = 6"
    "\<not> later_used (used_of initial_heap cssSelectorBuilder) 2"
    by code_simp+
  have one: "chain initial_heap cssSelectorBuilder ?one = (Inr 1, after initial_heap ?one)"
    and two: "chain initial_heap cssSelectorBuilder ?two = (Inr 2, after initial_heap ?two)"
    by code_simp+
  have flags: "\<not> later_used (used_of (after initial_heap ?one) 1) 0"
    "later_used (used_of (after initial_heap ?two) 2) 0"
    by code_simp+
  from repeated_parts[OF start(1,2), of ?one 1 "after initial_heap ?one" "''table''" "''div''"
      "''after''" 2 ?ds]
    repeated_parts[OF start(1,2), of ?two 2 "after initial_heap ?two" "''table''" "''div''"
      "''after''" 2 ?ds]
    repeated_parts[OF start(1,2), of ?two 2 "after initial_heap ?two" "''table''" "''before''"
      "''after''" 2 ?ds]
  show ?thesis
    using start one two flags by simp
qed

text \<open>
  Claim C4 as stated fails on \<^verbatim>\<open>element('a').class('b').element('c')\<close>: the second
  element throws the ordering error, not the duplication error.
\<close>

theorem second_element_out_of_order:
  "fst (chain initial_heap cssSelectorBuilder [Element ''a'', Class ''b'', Element ''c''])
     = Inl WrongOrder \<and>
   fst (chain initial_heap cssSelectorBuilder [Element ''a'', Class ''b'', Element ''c''])
     \<noteq> Inl MoreThenOneTime"
  by code_simp

text \<open>
  Claim C5, as amended. \<^verbatim>\<open>element('div').id('main')\<close> returns a value, at reference
  2, and \<^verbatim>\<open>element('span')\<close> on that value throws the ordering error: the id slot is
  flagged, and \<^verbatim>\<open>checkOrder(0)\<close> throws before the element flag is looked at.
\<close>

theorem div_main_span_order:
  "fst (chain initial_heap cssSelectorBuilder [Element ''div'', Id_sel ''main'']) = Inr 2 \<and>
   element div_main 2 ''span'' = (Inl WrongOrder, div_main) \<and>
   fst (chain initial_heap cssSelectorBuilder [Element ''div'', Id_sel ''main'', Element ''span''])
     = Inl WrongOrder"
  by code_simp

text \<open>Claim C5 as stated fails: the error of that chain is not the duplication error.\<close>

theorem div_main_span_not_duplicate:
  "fst (chain initial_heap cssSelectorBuilder [Element ''div'', Id_sel ''main'', Element ''span''])
     \<noteq> Inl MoreThenOneTime"
  by code_simp

text \<open>
  Claim C6. An append that returns gives a reference that was not in the store; every
  object and every array that was in the store is as before, so the receiver has the
  text and the flags it had; and any append made on the receiver afterwards has the
  outcome it would have had before, the same error or a value with the same text and
  flags.
\<close>

theorem append_copies:
  assumes "live h this" and "invoke h this c = (Inr r, h')"
  shows "r = length (objects h) \<and> live h' r \<and>
         take (length (objects h)) (objects h') = objects h \<and>
         take (length (arrays h)) (arrays h') = arrays h \<and>
         string_of h' this = string_of h this \<and> used_of h' this = used_of h this \<and>
         observe (invoke h' this d) = observe (invoke h this d)"
proof -
  note s = invoke_success(1,2)[OF assms]
  have live': "live h' this"
    and same: "string_of h' this = string_of h this" "used_of h' this = used_of h this"
    using assms(1) by (simp_all add: s(2) live_after_copied)
  have "observe (invoke h' this d) = observe (invoke h this d)"
    using assms(1) live' same
    by (simp add: invoke_part part_live observe_def)
  moreover have "take (length (objects h)) (objects h') = objects h"
    "take (length (arrays h)) (arrays h') = arrays h"
    by (simp_all add: s(2) copied_def)
  ultimately show ?thesis
    using s(1) same invoke_success_view(1)[OF assms] by simp
qed

text \<open>
  \<^verbatim>\<open>element('div').id('main')\<close>, at reference 2, extended with \<^verbatim>\<open>class('a')\<close> and
  then, from the same base, with \<^verbatim>\<open>class('b')\<close>.
\<close>

theorem append_copies_witness:
  "live div_main 2 \<and>
   invoke div_main 2 (Class ''a'') = (Inr 3, snd (invoke div_main 2 (Class ''a''))) \<and>
   string_of (snd (invoke div_main 2 (Class ''a''))) 2 = ''div#main'' \<and>
   used_of (snd (invoke div_main 2 (Class ''a''))) 2 = [True, True, False, False, False, False] \<and>
   string_of (snd (invoke div_main 2 (Class ''a''))) 3 = ''div#main.a'' \<and>
   observe (invoke (snd (invoke div_main 2 (Class ''a''))) 2 (Class ''b''))
     = Inr (''div#main.b'', [True, True, True, False, False, False])"
proof -
  have base: "live div_main 2"
    and call: "invoke div_main 2 (Class ''a'') = (Inr 3, snd (invoke div_main 2 (Class ''a'')))"
    by code_simp+
  have before: "string_of div_main 2 = ''div#main''"
    "used_of div_main 2 = [True, True, False, False, False, False]"
    "observe (invoke div_main 2 (Class ''b''))
       = Inr (''div#main.b'', [True, True, True, False, False, False])"
    "string_of (snd (invoke div_main 2 (Class ''a''))) 3 = ''div#main.a''"
    by code_simp+
  from append_copies[OF base call, of "Class ''b''"] before base call show ?thesis
    by simp
qed

text \<open>
  Claim C7, as amended. For two arguments that are different objects and any combinator
  text, \<^verbatim>\<open>combine\<close> returns its receiver, and the first \<^verbatim>\<open>stringify()\<close> of the
  receiver then returns what \<^verbatim>\<open>stringify()\<close> would have returned on the first argument,
  a space, the combinator, a space, and what it would have returned on the second
  argument. One of the arguments may be the receiver, holding the text of an earlier
  \<^verbatim>\<open>combine\<close>; nothing is checked about the combinator.
\<close>

theorem combine_joins:
  assumes "this < length (objects h)" and "selector1 \<noteq> selector2"
  shows "fst (combine h this selector1 t selector2) = this \<and>
         fst (stringify (snd (combine h this selector1 t selector2)) this) =
           fst (stringify h selector1) @ '' '' @ t @ '' '' @ fst (stringify h selector2)"
  using assms
  by (simp add: combine_def stringify_def Let_def put_string_def string_of_def)

text \<open>
  The nested example of the source's comment: the outer \<^verbatim>\<open>combine\<close> joins the selector
  at reference 4 and the builder, which holds the text of the two inner calls.
\<close>

theorem combine_joins_witness:
  "cssSelectorBuilder < length (objects nested_middle) \<and> 4 \<noteq> cssSelectorBuilder \<and>
   fst (stringify nested_middle 4) = ''div#main.container.draggable'' \<and>
   fst (stringify nested_middle cssSelectorBuilder)
     = ''table#data ~ tr:nth-of-type(even)   td:nth-of-type(even)'' \<and>
   fst (stringify (snd (combine nested_middle cssSelectorBuilder 4 ''+'' cssSelectorBuilder))
          cssSelectorBuilder)
     = ''div#main.container.draggable + table#data ~ tr:nth-of-type(even)   td:nth-of-type(even)''"
proof -
  have pre: "cssSelectorBuilder < length (objects nested_middle)" "4 \<noteq> cssSelectorBuilder"
    by code_simp+
  have parts: "fst (stringify nested_middle 4) = ''div#main.container.draggable''"
    "fst (stringify nested_middle cssSelectorBuilder)
       = ''table#data ~ tr:nth-of-type(even)   td:nth-of-type(even)''"
    by code_simp+
  from combine_joins[OF pre, of "''+''"] parts pre show ?thesis
    by simp
qed

text \<open>
  Claim C7 as stated fails when both arguments are results of \<^verbatim>\<open>combine\<close>, which are
  one object, the builder. In \<^verbatim>\<open>combine(combine(a, '+', b), '~', combine(c, '>', d))\<close>
  the outer call gets the builder twice, holding \<^verbatim>\<open>'c > d'\<close>; the result renders as
  \<^verbatim>\<open>'c > d ~ '\<close>, which is neither the join of the two renderings at the time of the call
  nor the join of the two inner results.
\<close>

theorem combine_of_two_combines:
  "fst (combine four cssSelectorBuilder 1 ''+'' 2) = cssSelectorBuilder \<and>
   fst (combine four_left cssSelectorBuilder 3 ''>'' 4) = cssSelectorBuilder \<and>
   fst (stringify four_left cssSelectorBuilder) = ''a + b'' \<and>
   fst (stringify four_both cssSelectorBuilder) = ''c > d'' \<and>
   fst (stringify
          (snd (combine four_both cssSelectorBuilder cssSelectorBuilder ''~'' cssSelectorBuilder))
          cssSelectorBuilder) = ''c > d ~ '' \<and>
   fst (stringify
          (snd (combine four_both cssSelectorBuilder cssSelectorBuilder ''~'' cssSelectorBuilder))
          cssSelectorBuilder)
     \<noteq> fst (stringify four_both cssSelectorBuilder) @ '' '' @ ''~'' @ '' '' @
        fst (stringify four_both cssSelectorBuilder)"
  by code_simp

text \<open>
  Claim C8, as amended. \<^verbatim>\<open>combine\<close> returns its receiver and makes no object. It
  stores in the receiver the text the first argument held, a space, the combinator, a
  space, and the text the second argument held, which counts as empty when the second
  argument is the first one. An argument that is not the receiver is left with the empty
  text. Every other object, every array, and so the flags of every value, are as before.
\<close>

theorem combine_frame:
  assumes "combine h this selector1 t selector2 = (r, h')"
  shows "r = this \<and> length (objects h') = length (objects h) \<and> arrays h' = arrays h \<and>
         (\<forall>x. used_of h' x = used_of h x) \<and>
         (\<forall>x. x \<notin> {this, selector1, selector2} \<longrightarrow> objects h' ! x = objects h ! x) \<and>
         (this < length (objects h) \<and> selector1 < length (objects h) \<longrightarrow>
            string_of h' this =
              string_of h selector1 @ '' '' @ t @ '' '' @
              (if selector2 = selector1 then [] else string_of h selector2)) \<and>
         (selector1 < length (objects h) \<and> selector1 \<noteq> this \<longrightarrow> string_of h' selector1 = []) \<and>
         (selector2 < length (objects h) \<and> selector2 \<noteq> this \<longrightarrow> string_of h' selector2 = [])"
proof -
  define h1 where "h1 = put_string h selector1 []"
  define h2 where "h2 = put_string h1 selector2 []"
  have r: "r = this"
    and h': "h' = put_string h2 this
                   (string_of h selector1 @ '' '' @ t @ '' '' @ string_of h1 selector2)"
    using assms by (auto simp: combine_def stringify_def Let_def h1_def h2_def)
  have put_used: "used_of (put_string g a s) x = used_of g x" for g a s x
    by (cases "a < length (objects g)"; cases "x = a")
      (simp_all add: put_string_def used_of_def list_update_beyond)
  have put_other: "x \<noteq> a \<Longrightarrow> objects (put_string g a s) ! x = objects g ! x" for g a s x
    by (simp add: put_string_def)
  have put_len: "length (objects (put_string g a s)) = length (objects g)" for g a s
    by (simp add: put_string_def)
  have put_arr: "arrays (put_string g a s) = arrays g" for g a s
    by (simp add: put_string_def)
  have put_same: "a < length (objects g) \<Longrightarrow> string_of (put_string g a s) a = s" for g a s
    by (simp add: put_string_def string_of_def)
  have put_str_other: "x \<noteq> a \<Longrightarrow> string_of (put_string g a s) x = string_of g x" for g a s x
    by (simp add: put_string_def string_of_def)
  have second: "string_of h1 selector2 = (if selector2 = selector1 then [] else string_of h selector2)"
    if "selector1 < length (objects h)"
    using that by (simp add: h1_def put_same put_str_other)
  have joined: "string_of h' this =
      string_of h selector1 @ '' '' @ t @ '' '' @
      (if selector2 = selector1 then [] else string_of h selector2)"
    if "this < length (objects h)" "selector1 < length (objects h)"
    using that second by (simp add: h' h2_def h1_def put_same put_len)
  have s1: "string_of h' selector1 = []" if "selector1 < length (objects h)" "selector1 \<noteq> this"
    using that
    by (cases "selector1 = selector2")
      (simp_all add: h' h2_def h1_def put_str_other put_same put_len)
  have s2: "string_of h' selector2 = []" if "selector2 < length (objects h)" "selector2 \<noteq> this"
    using that by (simp add: h' h2_def h1_def put_str_other put_same put_len)
  have frame: "r = this \<and> length (objects h') = length (objects h) \<and> arrays h' = arrays h \<and>
      (\<forall>x. used_of h' x = used_of h x) \<and>
      (\<forall>x. x \<notin> {this, selector1, selector2} \<longrightarrow> objects h' ! x = objects h ! x)"
    using r by (simp add: h' h2_def h1_def put_used put_other put_len put_arr)
  from frame joined s1 s2 show ?thesis
    by blast
qed

text \<open>
  \<^verbatim>\<open>combine(a, '+', b)\<close> on the builder, in the store of the four selectors: the
  builder gets \<^verbatim>\<open>'a + b'\<close>, the selector at reference 3 is no argument and keeps its
  text, the arguments lose theirs. And the middle call of the nested example, whose
  second argument is the builder itself: the builder gets the joined text and keeps it,
  the first argument loses its text.
\<close>

theorem combine_frame_witness:
  "fst (combine four cssSelectorBuilder 1 ''+'' 2) = cssSelectorBuilder \<and>
   length (objects four_left) = length (objects four) \<and> arrays four_left = arrays four \<and>
   used_of four_left 1 = used_of four 1 \<and>
   3 \<notin> {cssSelectorBuilder, 1, 2} \<and> objects four_left ! 3 = objects four ! 3 \<and>
   cssSelectorBuilder < length (objects four) \<and>
   string_of four 1 = ''a'' \<and> string_of four 2 = ''b'' \<and>
   string_of four_left cssSelectorBuilder = ''a + b'' \<and>
   1 < length (objects four) \<and> 1 \<noteq> cssSelectorBuilder \<and> string_of four_left 1 = [] \<and>
   2 < length (objects four) \<and> 2 \<noteq> cssSelectorBuilder \<and> string_of four_left 2 = [] \<and>
   cssSelectorBuilder < length (objects nested_inner) \<and> 6 < length (objects nested_inner) \<and>
   6 \<noteq> cssSelectorBuilder \<and>
   string_of nested_inner 6 = ''table#data'' \<and>
   string_of nested_inner cssSelectorBuilder
     = ''tr:nth-of-type(even)   td:nth-of-type(even)'' \<and>
   string_of nested_middle cssSelectorBuilder
     = ''table#data ~ tr:nth-of-type(even)   td:nth-of-type(even)'' \<and>
   string_of nested_middle 6 = []"
proof -
  have call: "combine four cssSelectorBuilder 1 ''+'' 2
      = (fst (combine four cssSelectorBuilder 1 ''+'' 2), four_left)"
    by (simp add: four_left_def)
  have pre: "3 \<notin> {cssSelectorBuilder, 1, 2}" "1 < length (objects four)"
    "1 \<noteq> cssSelectorBuilder" "2 < length (objects four)" "2 \<noteq> cssSelectorBuilder"
    "cssSelectorBuilder < length (objects four)" "(2::nat) \<noteq> 1"
    by (simp_all add: cssSelectorBuilder_def) code_simp+
  have texts: "string_of four 1 = ''a''" "string_of four 2 = ''b''"
    by code_simp+
  have nested_call: "combine nested_inner cssSelectorBuilder 6 ''~'' cssSelectorBuilder
      = (fst (combine nested_inner cssSelectorBuilder 6 ''~'' cssSelectorBuilder), nested_middle)"
    by (simp add: nested_middle_def)
  have nested_pre: "cssSelectorBuilder < length (objects nested_inner)"
    "6 < length (objects nested_inner)" "6 \<noteq> cssSelectorBuilder" "cssSelectorBuilder \<noteq> 6"
    by (simp_all add: cssSelectorBuilder_def) code_simp+
  have nested_texts: "string_of nested_inner 6 = ''table#data''"
    "string_of nested_inner cssSelectorBuilder = ''tr:nth-of-type(even)   td:nth-of-type(even)''"
    by code_simp+
  from combine_frame[OF call] combine_frame[OF nested_call] pre texts nested_pre nested_texts
  show ?thesis
    by simp
qed

text \<open>
  Claim C8 as stated fails on \<^verbatim>\<open>combine(a, '+', b)\<close>: the value returned is the builder
  the call was made on, not a new one; the builder's text has changed from empty to
  \<^verbatim>\<open>'a + b'\<close>; and the first argument, whose text was \<^verbatim>\<open>'a'\<close>, is left with the empty
  text.
\<close>

theorem combine_mutates:
  "fst (combine four cssSelectorBuilder 1 ''+'' 2) = cssSelectorBuilder \<and>
   length (objects (snd (combine four cssSelectorBuilder 1 ''+'' 2))) = length (objects four) \<and>
   string_of four cssSelectorBuilder = [] \<and>
   string_of (snd (combine four cssSelectorBuilder 1 ''+'' 2)) cssSelectorBuilder = ''a + b'' \<and>
   string_of four 1 = ''a'' \<and>
   string_of (snd (combine four cssSelectorBuilder 1 ''+'' 2)) 1 = []"
  by code_simp

text \<open>
  Claim C10. On a value whose id flag is set and with no flag set after it, \<^verbatim>\<open>id\<close>
  throws the duplication error: the source guards the id like the element and the
  pseudo-element.
\<close>

theorem id_once:
  assumes "live h this" and "js_index (used_of h this) 1" and "\<not> later_used (used_of h this) 1"
  shows "fst (id_sel h this v) = Inl MoreThenOneTime"
  using assms invoke_part[of h this "Id_sel v"] by (simp add: part_live)

text \<open>\<^verbatim>\<open>id('id1').id('id2')\<close> on the builder of the module.\<close>

theorem id_once_witness:
  "live id1_sel 1 \<and> js_index (used_of id1_sel 1) 1 \<and> \<not> later_used (used_of id1_sel 1) 1 \<and>
   fst (chain initial_heap cssSelectorBuilder [Id_sel ''id1'']) = Inr 1 \<and>
   fst (id_sel id1_sel 1 ''id2'') = Inl MoreThenOneTime"
proof -
  have pre: "live id1_sel 1" "js_index (used_of id1_sel 1) 1" "\<not> later_used (used_of id1_sel 1) 1"
    and built: "fst (chain initial_heap cssSelectorBuilder [Id_sel ''id1'']) = Inr 1"
    by code_simp+
  from id_once[OF pre, of "''id2''"] pre built show ?thesis
    by simp
qed

section \<open>The claim about Rectangle and the JSON helpers\<close>

subsection \<open>Property lookup returns\<close>

text \<open>
  In a store where every prototype was made before the objects that have it, which is
  how the functions here build stores, the steps allowed are enough: reading a property
  of an object of the store gives a value.
\<close>

lemma lookup_returns:
  assumes "\<And>ob p. ob < length s \<Longrightarrow> prototype (s ! ob) = Some p \<Longrightarrow> p < ob"
  shows "ob < length s \<Longrightarrow> ob < fuel \<Longrightarrow> \<exists>v. lookup fuel s ob k = Some v"
proof (induction fuel arbitrary: ob)
  case 0
  then show ?case by simp
next
  case (Suc fuel)
  show ?case
  proof (cases "map_of (properties (s ! ob)) k")
    case (Some v)
    with Suc.prems show ?thesis by simp
  next
    case None
    show ?thesis
    proof (cases "prototype (s ! ob)")
      case no_proto: None
      with None Suc.prems show ?thesis by simp
    next
      case (Some p)
      from assms[OF Suc.prems(1) Some] have "p < ob" .
      with Suc.prems have "p < length s" "p < fuel" by simp_all
      from Suc.IH[OF this] None Some Suc.prems(1) show ?thesis by simp
    qed
  qed
qed

lemma get_prop_returns:
  assumes "\<And>ob p. ob < length s \<Longrightarrow> prototype (s ! ob) = Some p \<Longrightarrow> p < ob"
    and "ob < length s"
  shows "\<exists>v. get_prop s ob k = Some v"
  unfolding get_prop_def using lookup_returns[OF assms(1) assms(2), of "length s" k] assms(2)
  by simp

subsection \<open>The arrow function and its object\<close>

text \<open>
  \<^verbatim>\<open>new Rectangle(10, 20).getArea()\<close> is 200, as the source's comment has it. The arrow
  function given to another rectangle still answers for the first one, and it answers
  with the width the first one has when it is called.
\<close>

lemma getArea_of_its_rectangle:
  "Rectangle loaded 10 20 = Some (2, one_rectangle)"
  "call_method one_rectangle 2 ''getArea'' = Returned (Num 200)"
  "get_prop borrowed_arrow 3 ''width'' = Some (Num 6)"
  "call_method borrowed_arrow 3 ''getArea'' = Returned (Num 200)"
  "call_method narrowed 2 ''getArea'' = Returned (Num 100)"
  "call_method narrowed 3 ''getArea'' = Returned (Num 100)"
  by code_simp+

subsection \<open>Decoding with the rectangle's prototype\<close>

text \<open>
  Claim C9, as amended. \<^verbatim>\<open>getJSON\<close> of \<^verbatim>\<open>{width:10, height:20}\<close> is the text
  \<^verbatim>\<open>{"width":10,"height":20}\<close>, and \<^verbatim>\<open>fromJSON\<close> of \<^verbatim>\<open>Rectangle.prototype\<close> and that
  text is an object with \<^verbatim>\<open>width\<close> 10 and \<^verbatim>\<open>height\<close> 20 whose prototype is
  \<^verbatim>\<open>Rectangle.prototype\<close>. It has no \<^verbatim>\<open>getArea\<close>: the constructor stores
  \<^verbatim>\<open>getArea\<close> in each object it makes and not in the prototype, so the property reads
  \<^verbatim>\<open>undefined\<close> on the decoded object and calling it throws a TypeError. An object made
  by \<^verbatim>\<open>new Rectangle(10, 20)\<close> does answer 200.
\<close>

theorem decoded_rectangle:
  "allocate loaded (JSObject [(''width'', Num 10), (''height'', Num 20)] (Some Object_prototype))
     = (width_height, with_literal) \<and>
   getJSON with_literal width_height = Some width_height_text \<and>
   fromJSON with_literal Rectangle_prototype width_height_text = Returned (3, decoded) \<and>
   decoded ! 3 =
     JSObject [(''width'', Num 10), (''height'', Num 20)] (Some Rectangle_prototype) \<and>
   get_prop decoded 3 ''width'' = Some (Num 10) \<and>
   get_prop decoded 3 ''height'' = Some (Num 20) \<and>
   get_prop decoded 3 ''getArea'' = Some Undefined \<and>
   call_method decoded 3 ''getArea'' = TypeError \<and>
   Rectangle loaded 10 20 = Some (2, one_rectangle) \<and>
   call_method one_rectangle 2 ''getArea'' = Returned (Num 200)"
  by code_simp

text \<open>
  Claim C9 as stated fails: \<^verbatim>\<open>getArea()\<close> on the decoded object does not return 200.
\<close>

theorem decoded_rectangle_no_area:
  "fromJSON with_literal Rectangle_prototype width_height_text = Returned (3, decoded) \<and>
   call_method decoded 3 ''getArea'' \<noteq> Returned (Num 200)"
  by code_simp


end
